theory Spec2Isabelle
  imports Complex_Main "HOL-Library.AList"
begin

section \<open>Python values\<close>

text \<open>
  Python floats are modelled by the real numbers: rounding, infinities and NaN are
  outside the model. The two operations of the code that raise OverflowError are in it:
  a float power whose result is out of the range of a float, and the conversion of an
  integer that is too large for a float (which \<open>float * int\<close> and \<open>float ** int\<close> do
  first). Python integers are \<open>int\<close>. A dictionary that the code iterates over is an association
  list in insertion order, whose keys are distinct; a dictionary that is only looked up
  is a map. A \<open>ChemicalCompound\<close> object has neither \<open>__eq__\<close> nor \<open>__hash__\<close>, so as a
  dictionary key it is its object identity: the type variable \<open>'c\<close> below.
\<close>

datatype error = ZeroDivisionError | OverflowError | KeyError | ValueError string

type_synonym ('k, 'v) dict = "('k \<times> 'v) list"

text \<open>
  The largest float is \<open>2 ^ 1024 - 2 ^ 971\<close>; a number rounds to a float unless its
  magnitude reaches \<open>2 ^ 1024 - 2 ^ 970\<close>, halfway to the power of two that follows.
\<close>

definition float_limit :: real where
  "float_limit = 2 ^ 1024 - 2 ^ 970"

text \<open>The conversion of an integer operand to a float.\<close>

definition int_to_float :: "int \<Rightarrow> error + real" where
  "int_to_float n =
     (if float_limit \<le> \<bar>real_of_int n\<bar> then Inl OverflowError else Inr (real_of_int n))"

text \<open>
  \<open>x ** n\<close> for a float \<open>x\<close> and an integer \<open>n\<close>: the exponent is converted to a float,
  \<open>0.0\<close> to a negative power raises ZeroDivisionError, and a result out of the range of
  a float raises OverflowError.
\<close>

definition float_pow :: "real \<Rightarrow> int \<Rightarrow> error + real" where
  "float_pow x n =
     (case int_to_float n of
        Inl e \<Rightarrow> Inl e
      | Inr _ \<Rightarrow>
          if x = 0 \<and> n < 0 then Inl ZeroDivisionError
          else if float_limit \<le> \<bar>power_int x n\<bar> then Inl OverflowError
          else Inr (power_int x n))"

section \<open>reaction.py: Reaction\<close>

record 'c Reaction =
  reactants :: "('c, int) dict"
  products :: "('c, int) dict"
  rate_constant :: real
  reaction_order :: int

text \<open>The loop of \<open>calculate_rate\<close> over \<open>self.reactants.items()\<close>, with its early return.\<close>

fun rate_loop :: "real \<Rightarrow> ('c, int) dict \<Rightarrow> ('c \<rightharpoonup> real) \<Rightarrow> error + real" where
  "rate_loop rate [] concentrations = Inr rate"
| "rate_loop rate ((compound, coeff) # rest) concentrations =
     (case concentrations compound of
        Some concentration \<Rightarrow>
          (case float_pow concentration coeff of
             Inl e \<Rightarrow> Inl e
           | Inr p \<Rightarrow> rate_loop (rate * p) rest concentrations)
      | None \<Rightarrow> Inr 0)"

definition calculate_rate :: "'c Reaction \<Rightarrow> ('c \<rightharpoonup> real) \<Rightarrow> error + real" where
  "calculate_rate r concentrations = rate_loop (rate_constant r) (reactants r) concentrations"

text \<open>
  \<open>stoichiometry[compound] = v\<close> on a Python dictionary keeps the position of an existing
  key and appends a new one, which is \<open>AList.update\<close>.
\<close>

definition get_stoichiometry_matrix :: "'c Reaction \<Rightarrow> ('c, int) dict" where
  "get_stoichiometry_matrix r =
     fold (\<lambda>(compound, coeff) stoichiometry. AList.update compound coeff stoichiometry)
       (products r)
       (fold (\<lambda>(compound, coeff) stoichiometry. AList.update compound (- coeff) stoichiometry)
          (reactants r) [])"

section \<open>reaction.py: ReactionSystem\<close>

text \<open>
  \<open>all_compounds\<close> is a Python set; its iteration order is not specified. The model
  enumerates it in order of first occurrence; no statement below depends on the order.
\<close>

record 'c ReactionSystem =
  reactions :: "'c Reaction list"
  all_compounds :: "'c list"

definition ReactionSystem_init :: "'c Reaction list \<Rightarrow> 'c ReactionSystem" where
  "ReactionSystem_init rs =
     \<lparr> reactions = rs,
       all_compounds =
         fold (\<lambda>reaction acc.
                 fold List.insert (map fst (products reaction))
                   (fold List.insert (map fst (reactants reaction)) acc))
           rs [] \<rparr>"

text \<open>
  \<open>rate_changes[compound] += stoich_coeff * reaction_rate\<close> for each item: the entry is
  read first, then the integer coefficient is converted for the product.
\<close>

fun add_rate_changes ::
  "('c, int) dict \<Rightarrow> real \<Rightarrow> ('c \<rightharpoonup> real) \<Rightarrow> error + ('c \<rightharpoonup> real)" where
  "add_rate_changes [] reaction_rate rate_changes = Inr rate_changes"
| "add_rate_changes ((compound, stoich_coeff) # rest) reaction_rate rate_changes =
     (case rate_changes compound of
        None \<Rightarrow> Inl KeyError
      | Some v \<Rightarrow>
          (case int_to_float stoich_coeff of
             Inl e \<Rightarrow> Inl e
           | Inr s \<Rightarrow>
               add_rate_changes rest reaction_rate
                 (rate_changes(compound \<mapsto> v + s * reaction_rate))))"

text \<open>The loop \<open>for reaction in self.reactions\<close> of one Euler step.\<close>

fun reactions_loop ::
  "'c Reaction list \<Rightarrow> ('c \<rightharpoonup> real) \<Rightarrow> ('c \<rightharpoonup> real) \<Rightarrow> error + ('c \<rightharpoonup> real)" where
  "reactions_loop [] current_conc rate_changes = Inr rate_changes"
| "reactions_loop (reaction # rest) current_conc rate_changes =
     (case calculate_rate reaction current_conc of
        Inl e \<Rightarrow> Inl e
      | Inr reaction_rate \<Rightarrow>
          (case add_rate_changes (get_stoichiometry_matrix reaction) reaction_rate rate_changes of
             Inl e \<Rightarrow> Inl e
           | Inr rate_changes' \<Rightarrow> reactions_loop rest current_conc rate_changes'))"

text \<open>The loop \<open>for compound in self.all_compounds\<close> that appends the new concentrations.\<close>

fun update_concentrations ::
  "'c list \<Rightarrow> ('c \<rightharpoonup> real) \<Rightarrow> ('c \<rightharpoonup> real) \<Rightarrow> real \<Rightarrow> ('c \<rightharpoonup> real list) \<Rightarrow>
   error + ('c \<rightharpoonup> real list)" where
  "update_concentrations [] current_conc rate_changes dt concentrations = Inr concentrations"
| "update_concentrations (compound # rest) current_conc rate_changes dt concentrations =
     (case (current_conc compound, rate_changes compound, concentrations compound) of
        (Some cur, Some change, Some traj) \<Rightarrow>
          update_concentrations rest current_conc rate_changes dt
            (concentrations(compound \<mapsto> traj @ [max 0 (cur + change * dt)]))
      | _ \<Rightarrow> Inl KeyError)"

text \<open>
  The dictionary comprehension \<open>{compound: concentrations[compound][-1] for ...}\<close>; every
  list of \<open>concentrations\<close> has its first entry from the start, so \<open>[-1]\<close> does not raise
  on a key that is there.
\<close>

fun current_conc_of :: "'c list \<Rightarrow> ('c \<rightharpoonup> real list) \<Rightarrow> error + ('c \<rightharpoonup> real)" where
  "current_conc_of [] concentrations = Inr Map.empty"
| "current_conc_of (compound # rest) concentrations =
     (case concentrations compound of
        None \<Rightarrow> Inl KeyError
      | Some traj \<Rightarrow>
          (case current_conc_of rest concentrations of
             Inl e \<Rightarrow> Inl e
           | Inr m \<Rightarrow> Inr (m(compound \<mapsto> last traj))))"

definition euler_step ::
  "'c ReactionSystem \<Rightarrow> real \<Rightarrow> ('c \<rightharpoonup> real list) \<Rightarrow> error + ('c \<rightharpoonup> real list)" where
  "euler_step sys dt concentrations =
     (case current_conc_of (all_compounds sys) concentrations of
        Inl e \<Rightarrow> Inl e
      | Inr current_conc \<Rightarrow>
          (case reactions_loop (reactions sys) current_conc
                  (map_of (map (\<lambda>compound. (compound, 0)) (all_compounds sys))) of
             Inl e \<Rightarrow> Inl e
           | Inr rate_changes \<Rightarrow>
               update_concentrations (all_compounds sys) current_conc rate_changes dt
                 concentrations))"

text \<open>The loop \<open>for i in range(1, len(time_points))\<close>, over the list of its indices.\<close>

fun euler_loop ::
  "'c ReactionSystem \<Rightarrow> real list \<Rightarrow> nat list \<Rightarrow> ('c \<rightharpoonup> real list) \<Rightarrow>
   error + ('c \<rightharpoonup> real list)" where
  "euler_loop sys time_points [] concentrations = Inr concentrations"
| "euler_loop sys time_points (i # is) concentrations =
     (case euler_step sys (time_points ! i - time_points ! (i - 1)) concentrations of
        Inl e \<Rightarrow> Inl e
      | Inr concentrations' \<Rightarrow> euler_loop sys time_points is concentrations')"

definition initial_trajectories :: "'c list \<Rightarrow> ('c \<rightharpoonup> real) \<Rightarrow> ('c \<rightharpoonup> real list)" where
  "initial_trajectories compounds initial_concentrations =
     fold (\<lambda>compound concentrations.
             concentrations(compound \<mapsto>
               [case initial_concentrations compound of Some v \<Rightarrow> v | None \<Rightarrow> 0]))
       compounds Map.empty"

definition simulate ::
  "'c ReactionSystem \<Rightarrow> ('c \<rightharpoonup> real) \<Rightarrow> real list \<Rightarrow> error + ('c \<rightharpoonup> real list)" where
  "simulate sys initial_concentrations time_points =
     euler_loop sys time_points [1 ..< length time_points]
       (initial_trajectories (all_compounds sys) initial_concentrations)"

section \<open>chemical_compound.py: ChemicalCompound\<close>

text \<open>
  A formula is a \<open>string\<close> of 8-bit characters. The classes \<open>[A-Z]\<close> and \<open>[a-z]\<close> of the
  pattern are the ASCII letters, and the digits of the pattern are modelled by the ASCII
  digits (the decimal digits of other scripts, which Python's pattern and \<open>int\<close> also
  take, are not in the model).
\<close>

definition is_upper :: "char \<Rightarrow> bool" where
  "is_upper c = (65 \<le> (of_char c :: nat) \<and> (of_char c :: nat) \<le> 90)"

definition is_lower :: "char \<Rightarrow> bool" where
  "is_lower c = (97 \<le> (of_char c :: nat) \<and> (of_char c :: nat) \<le> 122)"

definition is_digit :: "char \<Rightarrow> bool" where
  "is_digit c = (48 \<le> (of_char c :: nat) \<and> (of_char c :: nat) \<le> 57)"

text \<open>
  \<open>str.isalpha\<close>, on strings of ASCII characters: at least one character, and letters
  only.
\<close>

definition isalpha :: "string \<Rightarrow> bool" where
  "isalpha s = (s \<noteq> [] \<and> list_all (\<lambda>c. is_upper c \<or> is_lower c) s)"

text \<open>\<open>int(count)\<close> on a string of decimal digits.\<close>

definition int_of_digits :: "string \<Rightarrow> int" where
  "int_of_digits ds = foldl (\<lambda>n d. 10 * n + int (of_char d - 48)) 0 ds"

text \<open>
  \<open>re.findall\<close> with the pattern of \<open>_parse_formula\<close>: one uppercase letter, at most one
  lowercase letter, then as many digits as follow. The scan goes from left to right; where
  no match starts the character is skipped, and after a match it goes on behind it. Each
  match gives the pair of its two groups.
\<close>

function findall :: "string \<Rightarrow> (string \<times> string) list" where
  "findall [] = []"
| "findall (c # cs) =
     (if is_upper c
      then (let lower = (case cs of [] \<Rightarrow> [] | d # ds \<Rightarrow> if is_lower d then [d] else []);
                rest = drop (length lower) cs
            in (c # lower, takeWhile is_digit rest) # findall (dropWhile is_digit rest))
      else findall cs)"
  by pat_completeness auto
termination
proof (relation "measure length")
  show "wf (measure length)" by simp
next
  fix c :: char and cs lower :: string and rest :: string
  assume "rest = drop (length lower) cs"
  then have "length (dropWhile is_digit rest) \<le> length cs"
    using length_dropWhile_le [of is_digit rest] by simp
  then show "(dropWhile is_digit rest, c # cs) \<in> measure length" by simp
next
  fix c :: char and cs
  show "(cs, c # cs) \<in> measure length" by simp
qed

record ChemicalCompound =
  formula :: string
  name :: string
  molar_mass :: "real option"
  composition :: "(string, int) dict"

text \<open>
  \<open>_parse_formula\<close>: the count of a match without digits is 1, and a later match of the
  same element overwrites the earlier count.
\<close>

definition parse_formula :: "string \<Rightarrow> (string, int) dict" where
  "parse_formula f =
     fold (\<lambda>(element, count) composition.
             AList.update element (if count = [] then 1 else int_of_digits count) composition)
       (findall f) []"

text \<open>The constructor; \<open>name or formula\<close> is the formula when the name is None or empty.\<close>

definition ChemicalCompound_init :: "string \<Rightarrow> string option \<Rightarrow> real option \<Rightarrow> ChemicalCompound" where
  "ChemicalCompound_init f n m =
     \<lparr> formula = f,
       name = (case n of None \<Rightarrow> f | Some s \<Rightarrow> if s = [] then f else s),
       molar_mass = m,
       composition = parse_formula f \<rparr>"

definition atomic_masses :: "(string, real) dict" where
  "atomic_masses =
     [(''H'', 1.008), (''He'', 4.003), (''Li'', 6.94), (''Be'', 9.012), (''B'', 10.81),
      (''C'', 12.01), (''N'', 14.01), (''O'', 16.00), (''F'', 19.00), (''Ne'', 20.18),
      (''Na'', 22.99), (''Mg'', 24.31), (''Al'', 26.98), (''Si'', 28.09), (''P'', 30.97),
      (''S'', 32.06), (''Cl'', 35.45), (''Ar'', 39.95), (''K'', 39.10), (''Ca'', 40.08),
      (''I'', 126.90)]"

text \<open>
  The loop of \<open>calculate_molar_mass\<close> over \<open>self.composition.items()\<close>; the product of
  a mass and a count converts the count to a float.
\<close>

fun mass_loop :: "(string, int) dict \<Rightarrow> real \<Rightarrow> error + real" where
  "mass_loop [] total_mass = Inr total_mass"
| "mass_loop ((element, count) # rest) total_mass =
     (case map_of atomic_masses element of
        Some m \<Rightarrow>
          (case int_to_float count of
             Inl e \<Rightarrow> Inl e
           | Inr k \<Rightarrow> mass_loop rest (total_mass + m * k))
      | None \<Rightarrow>
          if isalpha element
          then (case int_to_float count of
                  Inl e \<Rightarrow> Inl e
                | Inr k \<Rightarrow> mass_loop rest (total_mass + 100.0 * k))
          else Inl (ValueError (''Unknown element: '' @ element)))"

text \<open>The end of \<open>calculate_molar_mass\<close>: the sum is stored in the object and returned.\<close>

definition sum_atomic_masses :: "ChemicalCompound \<Rightarrow> error + real \<times> ChemicalCompound" where
  "sum_atomic_masses self =
     (case mass_loop (composition self) 0.0 of
        Inl e \<Rightarrow> Inl e
      | Inr total_mass \<Rightarrow> Inr (total_mass, self\<lparr>molar_mass := Some total_mass\<rparr>))"

text \<open>
  \<open>calculate_molar_mass\<close> returns the mass and the object as the call leaves it. A compound
  of one element with a one-letter symbol that is not in the table is generic: its mass
  is \<open>100.0\<close>.
\<close>

definition calculate_molar_mass :: "ChemicalCompound \<Rightarrow> error + real \<times> ChemicalCompound" where
  "calculate_molar_mass self =
     (case molar_mass self of
        Some m \<Rightarrow> Inr (m, self)
      | None \<Rightarrow>
          if length (composition self) = 1 \<and> length (fst (hd (composition self))) = 1
          then (let element = fst (hd (composition self))
                in if map_of atomic_masses element = None \<and> isalpha element
                   then Inr (100.0, self\<lparr>molar_mass := Some 100.0\<rparr>)
                   else sum_atomic_masses self)
          else sum_atomic_masses self)"

section \<open>chem_calculator.py: ChemicalCalculator\<close>

text \<open>
  \<open>compounds\<close> maps a formula to the compound object and its initial concentration.
  \<open>numpy.linspace\<close> is a library function outside the repository: it is a parameter
  of \<open>simulate_reactions\<close>.
\<close>

record 'c ChemicalCalculator =
  compounds :: "(string, 'c \<times> real) dict"
  calculator_reactions :: "'c Reaction list"

definition simulate_reactions ::
  "(real \<Rightarrow> real \<Rightarrow> int \<Rightarrow> error + real list) \<Rightarrow> 'c ChemicalCalculator \<Rightarrow> real \<Rightarrow> int \<Rightarrow>
   error + real list \<times> ('c \<rightharpoonup> real list)" where
  "simulate_reactions linspace self time_end time_steps =
     (if calculator_reactions self = []
      then Inl (ValueError ''No reactions defined. Add reactions before simulating.'')
      else (case linspace 0 time_end time_steps of
              Inl e \<Rightarrow> Inl e
            | Inr time_points \<Rightarrow>
                (let initial_concentrations =
                       fold (\<lambda>(formula, (compound, concentration)) m. m(compound \<mapsto> concentration))
                         (compounds self) Map.empty
                 in (case simulate (ReactionSystem_init (calculator_reactions self))
                            initial_concentrations time_points of
                       Inl e \<Rightarrow> Inl e
                     | Inr results \<Rightarrow> Inr (time_points, results)))))"

section \<open>The forward-Euler reference of the specification\<close>

text \<open>
  The specification describes \<open>simulate\<close> by a reference definition: row \<open>0\<close> is
  \<open>initial_concentrations.get(c, 0.0)\<close>, and row \<open>i\<close> is the clamped Euler step from row
  \<open>i - 1\<close>, with the net coefficient of \<open>get_stoichiometry_matrix\<close> and the rate
  \<open>rate_constant * \<Prod>(concentration ^ coefficient)\<close>. The three definitions below follow
  those words, not the code of \<open>simulate\<close>.
\<close>

definition net_coefficient :: "'c Reaction \<Rightarrow> 'c \<Rightarrow> real" where
  "net_coefficient r c =
     (case map_of (get_stoichiometry_matrix r) c of Some s \<Rightarrow> real_of_int s | None \<Rightarrow> 0)"

definition rate_formula :: "'c Reaction \<Rightarrow> ('c \<Rightarrow> real) \<Rightarrow> real" where
  "rate_formula r conc = rate_constant r * (\<Prod>(c, k)\<leftarrow>reactants r. power_int (conc c) k)"

fun euler_reference ::
  "'c Reaction list \<Rightarrow> ('c \<rightharpoonup> real) \<Rightarrow> real list \<Rightarrow> nat \<Rightarrow> 'c \<Rightarrow> real" where
  "euler_reference rs initial_concentrations time_points 0 c =
     (case initial_concentrations c of Some v \<Rightarrow> v | None \<Rightarrow> 0)"
| "euler_reference rs initial_concentrations time_points (Suc i) c =
     max 0 (euler_reference rs initial_concentrations time_points i c +
            (time_points ! Suc i - time_points ! i) *
            (\<Sum>r\<leftarrow>rs. net_coefficient r c *
                rate_formula r (euler_reference rs initial_concentrations time_points i)))"

section \<open>The operations of one Euler step that can raise\<close>

text \<open>
  At the concentrations \<open>conc\<close>, one Euler step takes the power \<open>conc c ** k\<close> for every
  reactant of every reaction and converts every coefficient of every stoichiometry
  matrix to a float. \<open>step_defined\<close> says that all of them return.
\<close>

definition step_defined :: "'c Reaction list \<Rightarrow> ('c \<Rightarrow> real) \<Rightarrow> bool" where
  "step_defined rs conc =
     list_all (\<lambda>r.
        list_all (\<lambda>(c, k). float_pow (conc c) k = Inr (power_int (conc c) k)) (reactants r) \<and>
        list_all (\<lambda>(c, s). int_to_float s = Inr (real_of_int s)) (get_stoichiometry_matrix r))
       rs"

section \<open>The example system of \<open>main\<close>\<close>

text \<open>The default example \<open>A + B \<rightarrow> C\<close> with \<open>k = 0.1\<close>; the compounds are the objects 0, 1, 2.\<close>

definition example_reaction :: "nat Reaction" where
  "example_reaction =
     \<lparr> reactants = [(0, 1), (1, 1)], products = [(2, 1)], rate_constant = 0.1,
       reaction_order = 1 \<rparr>"

definition example_initial :: "nat \<rightharpoonup> real" where
  "example_initial = [0 \<mapsto> 1.0, 1 \<mapsto> 0.5, 2 \<mapsto> 0.0]"

section \<open>Stoichiometry and rate of one reaction\<close>

lemma keys_fold_update:
  "fst ` set (fold (\<lambda>(c, k) st. AList.update c (f k) st) xs al) = fst ` set xs \<union> fst ` set al"
proof (induction xs arbitrary: al)
  case Nil
  then show ?case by simp
next
  case (Cons x xs)
  obtain c k where x: "x = (c, k)" by (cases x)
  show ?case unfolding x by (simp add: Cons.IH dom_update)
qed

lemma distinct_fold_update:
  "distinct (map fst al) \<Longrightarrow> distinct (map fst (fold (\<lambda>(c, k) st. AList.update c (f k) st) xs al))"
  by (induction xs arbitrary: al) (auto simp: distinct_update)

lemma map_of_fold_update:
  "distinct (map fst xs) \<Longrightarrow>
   map_of (fold (\<lambda>(c, k) st. AList.update c (f k) st) xs al) c =
     (case map_of xs c of Some k \<Rightarrow> Some (f k) | None \<Rightarrow> map_of al c)"
proof (induction xs arbitrary: al)
  case Nil
  then show ?case by simp
next
  case (Cons x xs)
  obtain c' k' where x: "x = (c', k')" by (cases x)
  from Cons.prems have nin: "c' \<notin> fst ` set xs" and d: "distinct (map fst xs)"
    by (auto simp: x)
  from nin have none: "map_of xs c' = None" by (simp add: map_of_eq_None_iff)
  show ?case using Cons.IH [OF d] none
    by (auto simp: x update_conv' split: option.splits)
qed

lemma stoich_keys: "fst ` set (get_stoichiometry_matrix r) = fst ` set (reactants r) \<union> fst ` set (products r)"
  by (auto simp: get_stoichiometry_matrix_def keys_fold_update)

lemma stoich_distinct: "distinct (map fst (get_stoichiometry_matrix r))"
  by (simp add: get_stoichiometry_matrix_def distinct_fold_update)

lemma stoich_map_of:
  assumes "distinct (map fst (reactants r))" "distinct (map fst (products r))"
  shows "map_of (get_stoichiometry_matrix r) c =
     (case map_of (products r) c of Some k \<Rightarrow> Some k
      | None \<Rightarrow> (case map_of (reactants r) c of Some k \<Rightarrow> Some (- k) | None \<Rightarrow> None))"
  using assms by (simp add: get_stoichiometry_matrix_def map_of_fold_update[where f="\<lambda>k. k", simplified] map_of_fold_update[where f="uminus"] split: option.splits)

lemma float_limit_ge: "2 ^ 1023 \<le> float_limit"
proof -
  have "(2::real) ^ 1024 = 2 ^ 1023 + 2 ^ 1023" by simp
  moreover have "(2::real) ^ 970 \<le> 2 ^ 1023" by (rule power_increasing) simp_all
  ultimately show ?thesis by (simp add: float_limit_def)
qed

lemma in_range: "\<bar>x\<bar> \<le> 1000 \<Longrightarrow> (float_limit \<le> \<bar>x\<bar>) = False"
proof -
  assume "\<bar>x\<bar> \<le> 1000"
  moreover have "(1000::real) < 2 ^ 10" by simp
  moreover have "(2::real) ^ 10 \<le> 2 ^ 1023" by (rule power_increasing) simp_all
  ultimately show ?thesis using float_limit_ge by simp
qed

lemma int_to_float_Inr: "int_to_float n = Inr s \<Longrightarrow> s = real_of_int n"
  by (simp add: int_to_float_def split: if_splits)

lemma float_pow_Inr: "float_pow x n = Inr p \<Longrightarrow> p = power_int x n"
  by (simp add: float_pow_def split: sum.splits if_splits)

lemma int_to_float_Inl: "int_to_float n = Inl e \<Longrightarrow> e = OverflowError"
  by (simp add: int_to_float_def split: if_splits)

lemma int_to_float_small: "\<bar>n\<bar> \<le> 1000 \<Longrightarrow> int_to_float n = Inr (real_of_int n)"
proof -
  assume "\<bar>n\<bar> \<le> 1000"
  then have "\<bar>real_of_int n\<bar> \<le> 1000" by linarith
  then show ?thesis by (simp add: int_to_float_def in_range)
qed

lemma float_pow_small:
  "\<bar>n\<bar> \<le> 1000 \<Longrightarrow> \<bar>power_int x n\<bar> \<le> 1000 \<Longrightarrow> \<not> (x = 0 \<and> n < 0) \<Longrightarrow>
   float_pow x n = Inr (power_int x n)"
  by (simp add: float_pow_def int_to_float_small in_range)


lemma rate_loop_returns:
  "\<forall>(c, k) \<in> set xs. \<forall>x. conc c = Some x \<longrightarrow> float_pow x k = Inr (power_int x k) \<Longrightarrow>
   \<exists>v. rate_loop rate xs conc = Inr v"
proof (induction xs arbitrary: rate)
  case Nil
  then show ?case by simp
next
  case (Cons x xs)
  obtain c k where x: "x = (c, k)" by (cases x)
  show ?case
  proof (cases "conc c")
    case None
    then show ?thesis by (simp add: x)
  next
    case (Some w)
    with Cons.prems have pow: "float_pow w k = Inr (power_int w k)" by (simp add: x)
    from Cons.prems have
      "\<forall>(c, k) \<in> set xs. \<forall>x. conc c = Some x \<longrightarrow> float_pow x k = Inr (power_int x k)"
      by simp
    from Cons.IH [OF this, of "rate * power_int w k"] show ?thesis
      using Some pow by (simp add: x)
  qed
qed

section \<open>The compounds and the initial trajectories of a system\<close>

lemma set_fold_insert: "set (fold List.insert xs acc) = set xs \<union> set acc"
  by (induction xs arbitrary: acc) auto

lemma distinct_fold_insert: "distinct acc \<Longrightarrow> distinct (fold List.insert xs acc)"
  by (induction xs arbitrary: acc) auto

lemma set_collect_compounds:
  "set (fold (\<lambda>reaction acc.
                 fold List.insert (map fst (products reaction))
                   (fold List.insert (map fst (reactants reaction)) acc)) rs acc) =
   (\<Union>r \<in> set rs. fst ` set (reactants r) \<union> fst ` set (products r)) \<union> set acc"
  by (induction rs arbitrary: acc) (auto simp: set_fold_insert)

lemma distinct_collect_compounds:
  "distinct acc \<Longrightarrow>
   distinct (fold (\<lambda>reaction acc.
                 fold List.insert (map fst (products reaction))
                   (fold List.insert (map fst (reactants reaction)) acc)) rs acc)"
  by (induction rs arbitrary: acc) (auto simp: distinct_fold_insert)

lemma set_all_compounds_init:
  "set (all_compounds (ReactionSystem_init rs)) =
   (\<Union>r \<in> set rs. fst ` set (reactants r) \<union> fst ` set (products r))"
  by (simp add: ReactionSystem_init_def set_collect_compounds)

lemma distinct_all_compounds_init: "distinct (all_compounds (ReactionSystem_init rs))"
  by (simp add: ReactionSystem_init_def distinct_collect_compounds)

lemma reactions_init [simp]: "reactions (ReactionSystem_init rs) = rs"
  by (simp add: ReactionSystem_init_def)

lemma fold_initial_trajectories:
  "fold (\<lambda>compound concentrations. concentrations(compound \<mapsto> [g compound])) comps m =
   (\<lambda>c. if c \<in> set comps then Some [g c] else m c)"
  by (induction comps arbitrary: m) (auto simp: fun_eq_iff)

lemma initial_trajectories_apply:
  "initial_trajectories comps init c =
   (if c \<in> set comps then Some [case init c of Some v \<Rightarrow> v | None \<Rightarrow> 0] else None)"
  unfolding initial_trajectories_def by (simp add: fold_initial_trajectories)

lemma current_conc_of_Inr:
  "current_conc_of comps conc = Inr m \<Longrightarrow>
   set comps \<subseteq> dom conc \<and>
   (\<forall>c. m c = (if c \<in> set comps then map_option last (conc c) else None))"
proof (induction comps arbitrary: m)
  case Nil
  then show ?case by auto
next
  case (Cons a comps)
  from Cons.prems obtain traj where a: "conc a = Some traj"
    by (auto split: option.splits)
  from Cons.prems a obtain m' where m': "current_conc_of comps conc = Inr m'"
    and m: "m = m'(a \<mapsto> last traj)"
    by (auto split: sum.splits)
  from Cons.IH [OF m'] show ?case using a by (auto simp: m)
qed

lemma current_conc_of_ok:
  "set comps \<subseteq> dom conc \<Longrightarrow> \<exists>m. current_conc_of comps conc = Inr m"
  by (induction comps) (auto split: option.splits sum.splits)


section \<open>The rate changes of one Euler step\<close>

lemma add_rate_changes_Inr:
  "add_rate_changes st rate rc = Inr rc' \<Longrightarrow> distinct (map fst st) \<Longrightarrow>
   fst ` set st \<subseteq> dom rc \<and>
   (\<forall>c. rc' c = (case map_of st c of None \<Rightarrow> rc c
                  | Some s \<Rightarrow> map_option (\<lambda>v. v + real_of_int s * rate) (rc c)))"
proof (induction st arbitrary: rc)
  case Nil
  then show ?case by simp
next
  case (Cons x st)
  obtain a s where x: "x = (a, s)" by (cases x)
  from Cons.prems obtain v where v: "rc a = Some v"
    by (auto simp: x split: option.splits)
  from Cons.prems v obtain s' where s': "int_to_float s = Inr s'"
    by (auto simp: x split: sum.splits)
  then have s'_eq: "s' = real_of_int s" by (rule int_to_float_Inr)
  from Cons.prems v s' have run: "add_rate_changes st rate (rc(a \<mapsto> v + real_of_int s * rate)) = Inr rc'"
    by (simp add: x s'_eq)
  from Cons.prems have d: "distinct (map fst st)" and nin: "a \<notin> fst ` set st"
    by (auto simp: x)
  from nin have none: "map_of st a = None" by (simp add: map_of_eq_None_iff)
  from Cons.IH [OF run d]
  have keys: "fst ` set st \<subseteq> dom (rc(a \<mapsto> v + real_of_int s * rate))"
    and vals: "\<And>c. rc' c = (case map_of st c of None \<Rightarrow> (rc(a \<mapsto> v + real_of_int s * rate)) c
                  | Some s' \<Rightarrow> map_option (\<lambda>v. v + real_of_int s' * rate) ((rc(a \<mapsto> v + real_of_int s * rate)) c))"
    by auto
  have "fst ` set (x # st) \<subseteq> dom rc" using keys v by (auto simp: x)
  moreover have "rc' c = (case map_of (x # st) c of None \<Rightarrow> rc c
                  | Some s \<Rightarrow> map_option (\<lambda>v. v + real_of_int s * rate) (rc c))" for c
  proof (cases "c = a")
    case True
    then show ?thesis using vals [of a] none v by (simp add: x)
  next
    case False
    then show ?thesis using vals [of c] by (simp add: x split: option.splits)
  qed
  ultimately show ?case by blast
qed

lemma add_rate_changes_returns:
  "fst ` set st \<subseteq> dom rc \<Longrightarrow> \<forall>(c, s) \<in> set st. int_to_float s = Inr (real_of_int s) \<Longrightarrow>
   \<exists>rc'. add_rate_changes st rate rc = Inr rc'"
proof (induction st arbitrary: rc)
  case Nil
  then show ?case by simp
next
  case (Cons x st)
  obtain a s where x: "x = (a, s)" by (cases x)
  from Cons.prems obtain v where v: "rc a = Some v" by (auto simp: x)
  from Cons.prems have conv: "int_to_float s = Inr (real_of_int s)" by (simp add: x)
  from Cons.prems have "fst ` set st \<subseteq> dom (rc(a \<mapsto> v + real_of_int s * rate))"
    by (auto simp: x)
  moreover from Cons.prems have "\<forall>(c, s) \<in> set st. int_to_float s = Inr (real_of_int s)" by simp
  ultimately have "\<exists>rc'. add_rate_changes st rate (rc(a \<mapsto> v + real_of_int s * rate)) = Inr rc'"
    by (rule Cons.IH)
  then show ?case using v conv by (simp add: x del: fun_upd_apply)
qed

lemma add_stoichiometry_Inr:
  assumes "add_rate_changes (get_stoichiometry_matrix r) rate rc = Inr rc'"
  shows "fst ` set (reactants r) \<union> fst ` set (products r) \<subseteq> dom rc"
    and "rc' c = map_option (\<lambda>v. v + net_coefficient r c * rate) (rc c)"
proof -
  note * = add_rate_changes_Inr [OF assms stoich_distinct]
  from * show "fst ` set (reactants r) \<union> fst ` set (products r) \<subseteq> dom rc"
    by (simp add: stoich_keys)
  from * have "rc' c = (case map_of (get_stoichiometry_matrix r) c of None \<Rightarrow> rc c
                  | Some s \<Rightarrow> map_option (\<lambda>v. v + real_of_int s * rate) (rc c))"
    by blast
  then show "rc' c = map_option (\<lambda>v. v + net_coefficient r c * rate) (rc c)"
    by (cases "rc c") (auto simp: net_coefficient_def split: option.splits)
qed

lemma rate_loop_Inr:
  "rate_loop rate xs conc = Inr v \<Longrightarrow> fst ` set xs \<subseteq> dom conc \<Longrightarrow>
   v = rate * (\<Prod>(c, k)\<leftarrow>xs. power_int (the (conc c)) k)"
proof (induction xs arbitrary: rate)
  case Nil
  then show ?case by simp
next
  case (Cons x xs)
  obtain a k where x: "x = (a, k)" by (cases x)
  from Cons.prems obtain w where w: "conc a = Some w" by (auto simp: x)
  from Cons.prems w obtain p where p: "float_pow w k = Inr p"
    and run: "rate_loop (rate * p) xs conc = Inr v"
    by (auto simp: x split: sum.splits)
  from p have p_eq: "p = power_int w k" by (rule float_pow_Inr)
  from Cons.prems have "fst ` set xs \<subseteq> dom conc" by (auto simp: x)
  from Cons.IH [OF run this] show ?case using w by (simp add: x p_eq mult.assoc)
qed

lemma prod_list_cong_keys:
  "(\<And>c. c \<in> fst ` set xs \<Longrightarrow> f c = g c) \<Longrightarrow>
   (\<Prod>(c, k)\<leftarrow>xs. power_int (f c) k) = (\<Prod>(c, k)\<leftarrow>xs. power_int (g c) (k::int) :: real)"
  by (induction xs) (auto simp: rev_image_eqI)

lemma calculate_rate_Inr:
  assumes "calculate_rate r conc = Inr v" "fst ` set (reactants r) \<subseteq> dom conc"
    and "\<And>c. c \<in> fst ` set (reactants r) \<Longrightarrow> conc c = Some (f c)"
  shows "v = rate_formula r f"
proof -
  from assms(1,2) have "v = rate_constant r * (\<Prod>(c, k)\<leftarrow>reactants r. power_int (the (conc c)) k)"
    unfolding calculate_rate_def by (rule rate_loop_Inr)
  also have "(\<Prod>(c, k)\<leftarrow>reactants r. power_int (the (conc c)) k) = (\<Prod>(c, k)\<leftarrow>reactants r. power_int (f c) k)"
    by (rule prod_list_cong_keys) (simp add: assms(3))
  finally show ?thesis by (simp add: rate_formula_def)
qed

lemma reactions_loop_Inr:
  "reactions_loop rs cur rc = Inr rc' \<Longrightarrow>
   \<forall>r \<in> set rs. \<forall>c \<in> fst ` set (reactants r). cur c = Some (f c) \<Longrightarrow>
   rc' c = map_option (\<lambda>v. v + (\<Sum>r\<leftarrow>rs. net_coefficient r c * rate_formula r f)) (rc c)"
proof (induction rs arbitrary: rc)
  case Nil
  then show ?case by (cases "rc c") auto
next
  case (Cons r rs)
  from Cons.prems(1) obtain rate where rate: "calculate_rate r cur = Inr rate"
    by (auto split: sum.splits)
  from Cons.prems(1) rate obtain rc1 where
    rc1: "add_rate_changes (get_stoichiometry_matrix r) rate rc = Inr rc1"
    and rest: "reactions_loop rs cur rc1 = Inr rc'"
    by (auto split: sum.splits)
  have present: "\<And>c. c \<in> fst ` set (reactants r) \<Longrightarrow> cur c = Some (f c)"
    using Cons.prems(2) by auto
  then have "fst ` set (reactants r) \<subseteq> dom cur" by auto
  from calculate_rate_Inr [OF rate this present] have rate_eq: "rate = rate_formula r f" .
  have "rc' c = map_option (\<lambda>v. v + (\<Sum>r\<leftarrow>rs. net_coefficient r c * rate_formula r f)) (rc1 c)"
    using Cons.IH [OF rest] Cons.prems(2) by auto
  also have "rc1 c = map_option (\<lambda>v. v + net_coefficient r c * rate) (rc c)"
    by (rule add_stoichiometry_Inr(2) [OF rc1])
  finally show ?case by (cases "rc c") (simp_all add: rate_eq add.assoc)
qed

lemma reactions_loop_returns:
  "\<forall>r \<in> set rs. \<forall>(c, k) \<in> set (reactants r).
      \<forall>x. cur c = Some x \<longrightarrow> float_pow x k = Inr (power_int x k) \<Longrightarrow>
   \<forall>r \<in> set rs. \<forall>(c, s) \<in> set (get_stoichiometry_matrix r).
      int_to_float s = Inr (real_of_int s) \<Longrightarrow>
   \<forall>r \<in> set rs. fst ` set (reactants r) \<union> fst ` set (products r) \<subseteq> dom rc \<Longrightarrow>
   \<exists>rc'. reactions_loop rs cur rc = Inr rc'"
proof (induction rs arbitrary: rc)
  case Nil
  then show ?case by simp
next
  case (Cons r rs)
  have "\<forall>(c, k) \<in> set (reactants r). \<forall>x. cur c = Some x \<longrightarrow> float_pow x k = Inr (power_int x k)"
    using Cons.prems(1) by simp
  then obtain rate where rate: "calculate_rate r cur = Inr rate"
    unfolding calculate_rate_def using rate_loop_returns by blast
  have "fst ` set (get_stoichiometry_matrix r) \<subseteq> dom rc"
    using Cons.prems(3) by (simp add: stoich_keys)
  moreover have "\<forall>(c, s) \<in> set (get_stoichiometry_matrix r). int_to_float s = Inr (real_of_int s)"
    using Cons.prems(2) by simp
  ultimately obtain rc1 where rc1: "add_rate_changes (get_stoichiometry_matrix r) rate rc = Inr rc1"
    using add_rate_changes_returns by blast
  have "dom rc1 = dom rc"
    using add_stoichiometry_Inr(2) [OF rc1] by (auto simp: dom_def)
  then have "\<exists>rc'. reactions_loop rs cur rc1 = Inr rc'"
    using Cons.prems by (intro Cons.IH) auto
  then show ?case using rate rc1 by simp
qed

lemma update_concentrations_Inr:
  "update_concentrations comps cur rc dt conc = Inr conc' \<Longrightarrow> distinct comps \<Longrightarrow>
   conc' c = (if c \<in> set comps
              then Some (the (conc c) @ [max 0 (the (cur c) + the (rc c) * dt)])
              else conc c)"
proof (induction comps arbitrary: conc)
  case Nil
  then show ?case by simp
next
  case (Cons a comps)
  from Cons.prems(1) obtain x y traj where
    a: "cur a = Some x" "rc a = Some y" "conc a = Some traj"
    by (auto split: option.splits)
  from Cons.prems(1) a have
    run: "update_concentrations comps cur rc dt (conc(a \<mapsto> traj @ [max 0 (x + y * dt)])) = Inr conc'"
    by simp
  from Cons.prems(2) have d: "distinct comps" and nin: "a \<notin> set comps" by auto
  from Cons.IH [OF run d] show ?case using a nin by auto
qed

lemma update_concentrations_ok:
  "set comps \<subseteq> dom cur \<Longrightarrow> set comps \<subseteq> dom rc \<Longrightarrow> set comps \<subseteq> dom conc \<Longrightarrow>
   \<exists>conc'. update_concentrations comps cur rc dt conc = Inr conc'"
proof (induction comps arbitrary: conc)
  case Nil
  then show ?case by simp
next
  case (Cons a comps)
  from Cons.prems obtain x y traj where
    a: "cur a = Some x" "rc a = Some y" "conc a = Some traj"
    by auto
  have "set comps \<subseteq> dom (conc(a \<mapsto> traj @ [max 0 (x + y * dt)]))"
    using Cons.prems(3) by auto
  moreover have "set comps \<subseteq> dom cur" "set comps \<subseteq> dom rc" using Cons.prems(1,2) by auto
  ultimately have "\<exists>conc'. update_concentrations comps cur rc dt (conc(a \<mapsto> traj @ [max 0 (x + y * dt)])) = Inr conc'"
    by (intro Cons.IH)
  then show ?case using a by (simp del: fun_upd_apply)
qed

lemma update_concentrations_keys:
  "update_concentrations comps cur rc dt conc = Inr conc' \<Longrightarrow> set comps \<subseteq> dom conc"
proof (induction comps arbitrary: conc)
  case Nil
  then show ?case by simp
next
  case (Cons a comps)
  from Cons.prems(1) obtain x y traj where
    a: "cur a = Some x" "rc a = Some y" "conc a = Some traj"
    by (auto split: option.splits)
  from Cons.prems(1) a have
    run: "update_concentrations comps cur rc dt (conc(a \<mapsto> traj @ [max 0 (x + y * dt)])) = Inr conc'"
    by simp
  from Cons.IH [OF run] have "set comps \<subseteq> insert a (dom conc)" by (simp del: fun_upd_apply)
  then show ?case using a by auto
qed


section \<open>One Euler step and the whole integration\<close>

lemma map_of_zero:
  "map_of (map (\<lambda>compound. (compound, v)) comps) c = (if c \<in> set comps then Some v else None)"
  by (induction comps) auto

lemma rate_formula_cong:
  "(\<And>c. c \<in> fst ` set (reactants r) \<Longrightarrow> f c = g c) \<Longrightarrow> rate_formula r f = rate_formula r g"
  unfolding rate_formula_def using prod_list_cong_keys [of "reactants r" f g] by simp

lemma euler_step_Inr:
  assumes step: "euler_step sys dt conc = Inr conc'"
    and dist: "distinct (all_compounds sys)"
    and keys: "\<forall>r \<in> set (reactions sys). fst ` set (reactants r) \<subseteq> set (all_compounds sys)"
  shows "set (all_compounds sys) \<subseteq> dom conc"
    and "conc' c =
      (if c \<in> set (all_compounds sys)
       then Some (the (conc c) @
              [max 0 (last (the (conc c)) +
                 (\<Sum>r\<leftarrow>reactions sys. net_coefficient r c *
                    rate_formula r (\<lambda>c'. last (the (conc c')))) * dt)])
       else conc c)"
proof -
  from step obtain cur where cur: "current_conc_of (all_compounds sys) conc = Inr cur"
    unfolding euler_step_def by (auto split: sum.splits)
  from step cur obtain rc where
    rc: "reactions_loop (reactions sys) cur
           (map_of (map (\<lambda>compound. (compound, 0)) (all_compounds sys))) = Inr rc"
    and upd: "update_concentrations (all_compounds sys) cur rc dt conc = Inr conc'"
    unfolding euler_step_def by (auto split: sum.splits)
  note cur_facts = current_conc_of_Inr [OF cur]
  from cur_facts show sub: "set (all_compounds sys) \<subseteq> dom conc" by blast
  have cur_val: "cur a = Some (last (the (conc a)))" if "a \<in> set (all_compounds sys)" for a
  proof -
    from that sub obtain traj where "conc a = Some traj" by auto
    with cur_facts that show ?thesis by simp
  qed
  have "\<forall>r \<in> set (reactions sys). \<forall>a \<in> fst ` set (reactants r).
          cur a = Some (last (the (conc a)))"
    using keys cur_val by blast
  from reactions_loop_Inr [OF rc this, of c]
  have rc_val: "rc c = map_option
      (\<lambda>v. v + (\<Sum>r\<leftarrow>reactions sys. net_coefficient r c *
                    rate_formula r (\<lambda>c'. last (the (conc c')))))
      (map_of (map (\<lambda>compound. (compound, 0)) (all_compounds sys)) c)" .
  show "conc' c =
      (if c \<in> set (all_compounds sys)
       then Some (the (conc c) @
              [max 0 (last (the (conc c)) +
                 (\<Sum>r\<leftarrow>reactions sys. net_coefficient r c *
                    rate_formula r (\<lambda>c'. last (the (conc c')))) * dt)])
       else conc c)"
  proof (cases "c \<in> set (all_compounds sys)")
    case True
    then have "rc c = Some (\<Sum>r\<leftarrow>reactions sys. net_coefficient r c *
                    rate_formula r (\<lambda>c'. last (the (conc c'))))"
      using rc_val by (simp add: map_of_zero)
    then show ?thesis
      using update_concentrations_Inr [OF upd dist, of c] True cur_val [OF True] by simp
  next
    case False
    then show ?thesis using update_concentrations_Inr [OF upd dist, of c] by simp
  qed
qed

lemma step_defined_cong:
  assumes "\<forall>r \<in> set rs. \<forall>c \<in> fst ` set (reactants r). f c = g c"
  shows "step_defined rs f = step_defined rs g"
proof -
  have "list_all (\<lambda>(c, k). float_pow (f c) k = Inr (power_int (f c) k)) (reactants r) =
        list_all (\<lambda>(c, k). float_pow (g c) k = Inr (power_int (g c) k)) (reactants r)"
    if "r \<in> set rs" for r
  proof -
    from assms that have "\<forall>x \<in> set (reactants r). f (fst x) = g (fst x)" by auto
    then show ?thesis unfolding list_all_iff by (auto simp: case_prod_beta)
  qed
  then show ?thesis unfolding step_defined_def list_all_iff by blast
qed

lemma euler_step_returns:
  assumes keys: "\<forall>r \<in> set (reactions sys).
        fst ` set (reactants r) \<union> fst ` set (products r) \<subseteq> set (all_compounds sys)"
    and sub: "set (all_compounds sys) \<subseteq> dom conc"
    and defined: "step_defined (reactions sys) (\<lambda>c. last (the (conc c)))"
  shows "\<exists>conc'. euler_step sys dt conc = Inr conc'"
proof -
  from current_conc_of_ok [OF sub] obtain cur where
    cur: "current_conc_of (all_compounds sys) conc = Inr cur" by blast
  note cur_facts = current_conc_of_Inr [OF cur]
  have cur_val: "cur a = Some (last (the (conc a)))" if "a \<in> set (all_compounds sys)" for a
  proof -
    from that sub obtain traj where "conc a = Some traj" by auto
    with cur_facts that show ?thesis by simp
  qed
  then have dom_cur: "set (all_compounds sys) \<subseteq> dom cur" by auto
  let ?rc0 = "map_of (map (\<lambda>compound. (compound, 0::real)) (all_compounds sys))"
  have dom0: "dom ?rc0 = set (all_compounds sys)"
    by (auto simp: map_of_zero dom_def)
  have k0: "\<forall>r \<in> set (reactions sys).
          fst ` set (reactants r) \<union> fst ` set (products r) \<subseteq> dom ?rc0"
    using keys unfolding dom0 .
  have pows: "\<forall>r \<in> set (reactions sys). \<forall>(c, k) \<in> set (reactants r).
      \<forall>x. cur c = Some x \<longrightarrow> float_pow x k = Inr (power_int x k)"
  proof (intro ballI, clarify)
    fix r c k x
    assume r: "r \<in> set (reactions sys)" and ck: "(c, k) \<in> set (reactants r)"
      and x: "cur c = Some x"
    from r ck keys have "c \<in> set (all_compounds sys)" by force
    with cur_val x have "x = last (the (conc c))" by simp
    moreover from defined r ck have
      "float_pow (last (the (conc c))) k = Inr (power_int (last (the (conc c))) k)"
      unfolding step_defined_def list_all_iff by auto
    ultimately show "float_pow x k = Inr (power_int x k)" by simp
  qed
  have convs: "\<forall>r \<in> set (reactions sys). \<forall>(c, s) \<in> set (get_stoichiometry_matrix r).
      int_to_float s = Inr (real_of_int s)"
    using defined unfolding step_defined_def list_all_iff by auto
  from reactions_loop_returns [OF pows convs k0] obtain rc where
    rc: "reactions_loop (reactions sys) cur ?rc0 = Inr rc" by blast
  have "\<forall>r \<in> set (reactions sys). \<forall>a \<in> fst ` set (reactants r). cur a = Some (the (cur a))"
    using keys dom_cur by fastforce
  from reactions_loop_Inr [OF rc this]
  have "\<And>c. rc c = map_option
      (\<lambda>v. v + (\<Sum>r\<leftarrow>reactions sys. net_coefficient r c * rate_formula r (\<lambda>a. the (cur a))))
      (?rc0 c)" .
  then have "dom rc = dom ?rc0" by (auto simp: dom_def)
  then have dom_rc: "set (all_compounds sys) \<subseteq> dom rc" by (simp add: dom0)
  from update_concentrations_ok [OF dom_cur dom_rc sub] obtain conc' where
    "update_concentrations (all_compounds sys) cur rc dt conc = Inr conc'" by blast
  then show ?thesis using cur rc by (simp add: euler_step_def)
qed

lemma euler_step_reference:
  assumes step: "euler_step sys (tps ! Suc j - tps ! j) conc = Inr conc'"
    and dist: "distinct (all_compounds sys)"
    and keys: "\<forall>r \<in> set (reactions sys). fst ` set (reactants r) \<subseteq> set (all_compounds sys)"
    and inv: "\<forall>c. conc c = (if c \<in> set (all_compounds sys)
                 then Some (map (\<lambda>i. euler_reference (reactions sys) init tps i c) [0..<Suc j])
                 else None)"
  shows "\<forall>c. conc' c = (if c \<in> set (all_compounds sys)
                 then Some (map (\<lambda>i. euler_reference (reactions sys) init tps i c) [0..<Suc (Suc j)])
                 else None)"
proof
  fix c
  let ?ref = "euler_reference (reactions sys) init tps"
  have last_val: "last (the (conc a)) = ?ref j a" if "a \<in> set (all_compounds sys)" for a
    using inv that by simp
  have rates: "rate_formula r (\<lambda>c'. last (the (conc c'))) = rate_formula r (?ref j)"
    if "r \<in> set (reactions sys)" for r
  proof (rule rate_formula_cong)
    fix a assume "a \<in> fst ` set (reactants r)"
    with keys that have "a \<in> set (all_compounds sys)" by blast
    then show "last (the (conc a)) = ?ref j a" by (rule last_val)
  qed
  have sum_eq: "(\<Sum>r\<leftarrow>reactions sys. net_coefficient r c * rate_formula r (\<lambda>c'. last (the (conc c'))))
              = (\<Sum>r\<leftarrow>reactions sys. net_coefficient r c * rate_formula r (?ref j))"
    by (rule arg_cong [where f = sum_list], rule map_cong) (simp_all add: rates)
  show "conc' c = (if c \<in> set (all_compounds sys)
                 then Some (map (\<lambda>i. ?ref i c) [0..<Suc (Suc j)]) else None)"
  proof (cases "c \<in> set (all_compounds sys)")
    case True
    have "conc' c = Some (the (conc c) @
              [max 0 (last (the (conc c)) +
                 (\<Sum>r\<leftarrow>reactions sys. net_coefficient r c *
                    rate_formula r (\<lambda>c'. last (the (conc c')))) * (tps ! Suc j - tps ! j))])"
      using euler_step_Inr(2) [OF step dist keys, of c] True by simp
    also have "the (conc c) = map (\<lambda>i. ?ref i c) [0..<Suc j]" using inv True by simp
    also have "last (map (\<lambda>i. ?ref i c) [0..<Suc j]) = ?ref j c" by simp
    finally show ?thesis using True by (simp add: sum_eq mult.commute)
  next
    case False
    then show ?thesis using euler_step_Inr(2) [OF step dist keys, of c] inv by simp
  qed
qed

lemma euler_loop_reference:
  assumes dist: "distinct (all_compounds sys)"
    and keys: "\<forall>r \<in> set (reactions sys). fst ` set (reactants r) \<subseteq> set (all_compounds sys)"
  shows "euler_loop sys tps [Suc j..<m] conc = Inr res \<Longrightarrow>
     \<forall>c. conc c = (if c \<in> set (all_compounds sys)
                 then Some (map (\<lambda>i. euler_reference (reactions sys) init tps i c) [0..<Suc j])
                 else None) \<Longrightarrow>
     \<forall>c. res c = (if c \<in> set (all_compounds sys)
                 then Some (map (\<lambda>i. euler_reference (reactions sys) init tps i c) [0..<max (Suc j) m])
                 else None)"
proof (induction "m - Suc j" arbitrary: j conc)
  case 0
  then have "[Suc j..<m] = []" and mx: "max (Suc j) m = Suc j" by auto
  with "0.prems"(1) have "res = conc" by simp
  with "0.prems"(2) show ?case unfolding mx by blast
next
  case (Suc k)
  then have lt: "Suc j < m" by simp
  then have upt: "[Suc j..<m] = Suc j # [Suc (Suc j)..<m]" by (simp add: upt_conv_Cons)
  from Suc.prems(1) obtain conc1 where
    step: "euler_step sys (tps ! Suc j - tps ! j) conc = Inr conc1"
    and rest: "euler_loop sys tps [Suc (Suc j)..<m] conc1 = Inr res"
    unfolding upt by (auto split: sum.splits)
  have inv1: "\<forall>c. conc1 c = (if c \<in> set (all_compounds sys)
                 then Some (map (\<lambda>i. euler_reference (reactions sys) init tps i c) [0..<Suc (Suc j)])
                 else None)"
    by (rule euler_step_reference [OF step dist keys Suc.prems(2)])
  have "k = m - Suc (Suc j)" using Suc.hyps(2) by simp
  from Suc.hyps(1) [OF this rest inv1] lt show ?case by (simp add: max_def)
qed

lemma euler_loop_returns:
  assumes dist: "distinct (all_compounds sys)"
    and keys: "\<forall>r \<in> set (reactions sys).
        fst ` set (reactants r) \<union> fst ` set (products r) \<subseteq> set (all_compounds sys)"
  shows "\<forall>c. conc c = (if c \<in> set (all_compounds sys)
                 then Some (map (\<lambda>i. euler_reference (reactions sys) init tps i c) [0..<Suc j])
                 else None) \<Longrightarrow>
     \<forall>i. j \<le> i \<and> Suc i < m \<longrightarrow> step_defined (reactions sys) (euler_reference (reactions sys) init tps i) \<Longrightarrow>
     \<exists>res. euler_loop sys tps [Suc j..<m] conc = Inr res"
proof (induction "m - Suc j" arbitrary: j conc)
  case 0
  then have "m \<le> Suc j" by simp
  then have e: "[Suc j..<m] = []" by simp
  show ?case unfolding e by simp
next
  case (Suc k)
  then have lt: "Suc j < m" by simp
  then have upt: "[Suc j..<m] = Suc j # [Suc (Suc j)..<m]" by (simp add: upt_conv_Cons)
  let ?ref = "euler_reference (reactions sys) init tps"
  have keys': "\<forall>r \<in> set (reactions sys). fst ` set (reactants r) \<subseteq> set (all_compounds sys)"
    using keys by blast
  have sub: "set (all_compounds sys) \<subseteq> dom conc" using Suc.prems(1) by (auto simp: dom_def)
  have agree: "\<forall>r \<in> set (reactions sys). \<forall>c \<in> fst ` set (reactants r).
      last (the (conc c)) = ?ref j c"
  proof (intro ballI)
    fix r c assume "r \<in> set (reactions sys)" "c \<in> fst ` set (reactants r)"
    with keys' have "c \<in> set (all_compounds sys)" by blast
    with Suc.prems(1) show "last (the (conc c)) = ?ref j c" by simp
  qed
  from Suc.prems(2) lt have "step_defined (reactions sys) (?ref j)" by simp
  with step_defined_cong [OF agree] have
    "step_defined (reactions sys) (\<lambda>c. last (the (conc c)))" by simp
  from euler_step_returns [OF keys sub this] obtain conc1 where
    step: "euler_step sys (tps ! Suc j - tps ! j) conc = Inr conc1" by blast
  have inv1: "\<forall>c. conc1 c = (if c \<in> set (all_compounds sys)
                 then Some (map (\<lambda>i. ?ref i c) [0..<Suc (Suc j)])
                 else None)"
    by (rule euler_step_reference [OF step dist keys' Suc.prems(1)])
  have k: "k = m - Suc (Suc j)" using Suc.hyps(2) by simp
  have "\<forall>i. Suc j \<le> i \<and> Suc i < m \<longrightarrow> step_defined (reactions sys) (?ref i)"
    using Suc.prems(2) by simp
  from Suc.hyps(1) [OF k inv1 this] obtain res where
    "euler_loop sys tps [Suc (Suc j)..<m] conc1 = Inr res" by blast
  then show ?case unfolding upt using step by simp
qed

lemma init_keys:
  "\<forall>r \<in> set (reactions (ReactionSystem_init rs)).
     fst ` set (reactants r) \<union> fst ` set (products r) \<subseteq> set (all_compounds (ReactionSystem_init rs))"
  by (auto simp: set_all_compounds_init)

lemma simulate_reference:
  assumes "simulate (ReactionSystem_init rs) init tps = Inr res"
  shows "res c = (if c \<in> set (all_compounds (ReactionSystem_init rs))
                  then Some (map (\<lambda>i. euler_reference rs init tps i c) [0..<max 1 (length tps)])
                  else None)"
proof -
  let ?sys = "ReactionSystem_init rs"
  have keys: "\<forall>r \<in> set (reactions ?sys). fst ` set (reactants r) \<subseteq> set (all_compounds ?sys)"
    using init_keys [of rs] by blast
  have inv0: "\<forall>c. initial_trajectories (all_compounds ?sys) init c =
      (if c \<in> set (all_compounds ?sys)
       then Some (map (\<lambda>i. euler_reference (reactions ?sys) init tps i c) [0..<Suc 0])
       else None)"
    by (simp add: initial_trajectories_apply)
  from assms have "euler_loop ?sys tps [Suc 0..<length tps]
      (initial_trajectories (all_compounds ?sys) init) = Inr res"
    by (simp add: simulate_def)
  from euler_loop_reference [OF distinct_all_compounds_init keys this inv0]
  show ?thesis by simp
qed

lemma simulate_returns:
  assumes "list_all (\<lambda>i. step_defined rs (euler_reference rs init tps i)) [0..<length tps - 1]"
  shows "\<exists>res. simulate (ReactionSystem_init rs) init tps = Inr res"
proof -
  let ?sys = "ReactionSystem_init rs"
  have inv0: "\<forall>c. initial_trajectories (all_compounds ?sys) init c =
      (if c \<in> set (all_compounds ?sys)
       then Some (map (\<lambda>i. euler_reference (reactions ?sys) init tps i c) [0..<Suc 0])
       else None)"
    by (simp add: initial_trajectories_apply)
  have "\<forall>i. 0 \<le> i \<and> Suc i < length tps \<longrightarrow>
      step_defined (reactions ?sys) (euler_reference (reactions ?sys) init tps i)"
    using assms unfolding list_all_iff by auto
  from euler_loop_returns [OF distinct_all_compounds_init init_keys inv0 this]
  show ?thesis by (simp add: simulate_def)
qed

section \<open>Parsing a formula\<close>

lemma findall_shape:
  "(e, d) \<in> set (findall f) \<Longrightarrow>
   \<exists>u. is_upper u \<and> (e = [u] \<or> (\<exists>l. is_lower l \<and> e = [u, l]))"
proof (induction f rule: findall.induct)
  case 1
  then show ?case by simp
next
  case (2 c cs)
  show ?case
  proof (cases "is_upper c")
    case False
    with 2 show ?thesis by simp
  next
    case True
    define lower where "lower = (case cs of [] \<Rightarrow> [] | d # ds \<Rightarrow> if is_lower d then [d] else [])"
    define rest where "rest = drop (length lower) cs"
    from "2.prems" True have
      "(e, d) = (c # lower, takeWhile is_digit rest) \<or> (e, d) \<in> set (findall (dropWhile is_digit rest))"
      by (simp add: lower_def rest_def Let_def)
    then show ?thesis
    proof
      assume "(e, d) = (c # lower, takeWhile is_digit rest)"
      then have e: "e = c # lower" by simp
      have "lower = [] \<or> (\<exists>l. is_lower l \<and> lower = [l])"
        by (auto simp: lower_def split: list.splits)
      with e True show ?thesis by auto
    next
      assume "(e, d) \<in> set (findall (dropWhile is_digit rest))"
      with "2.IH"(1) [OF True lower_def rest_def] show ?thesis .
    qed
  qed
qed

lemma findall_isalpha: "(e, d) \<in> set (findall f) \<Longrightarrow> isalpha e"
  using findall_shape [of e d f] by (auto simp: isalpha_def)

lemma keys_parse_formula: "fst ` set (parse_formula f) = fst ` set (findall f)"
  unfolding parse_formula_def
  using keys_fold_update [of "\<lambda>count. if count = [] then 1 else int_of_digits count" "findall f" "[]"]
  by simp

lemma mass_loop_returns:
  "\<forall>e \<in> fst ` set items. isalpha e \<Longrightarrow>
   \<forall>(e, k) \<in> set items. int_to_float k = Inr (real_of_int k) \<Longrightarrow>
   \<exists>m. mass_loop items t = Inr m"
proof (induction items arbitrary: t)
  case Nil
  then show ?case by simp
next
  case (Cons x items)
  obtain e k where x: "x = (e, k)" by (cases x)
  from Cons.prems have alpha: "isalpha e" and rest: "\<forall>e \<in> fst ` set items. isalpha e"
    and conv: "int_to_float k = Inr (real_of_int k)"
    and convs: "\<forall>(e, k) \<in> set items. int_to_float k = Inr (real_of_int k)"
    by (auto simp: x)
  show ?case
  proof (cases "map_of atomic_masses e")
    case None
    with Cons.IH [OF rest convs, of "t + 100 * real_of_int k"] alpha conv show ?thesis
      by (simp add: x)
  next
    case (Some m)
    with Cons.IH [OF rest convs, of "t + m * real_of_int k"] conv show ?thesis by (simp add: x)
  qed
qed

lemma mass_loop_Inl:
  "mass_loop items t = Inl err \<Longrightarrow> \<forall>e \<in> fst ` set items. isalpha e \<Longrightarrow> err = OverflowError"
proof (induction items arbitrary: t)
  case Nil
  then show ?case by simp
next
  case (Cons x items)
  obtain e k where x: "x = (e, k)" by (cases x)
  from Cons.prems(2) have alpha: "isalpha e" and rest: "\<forall>e \<in> fst ` set items. isalpha e"
    by (auto simp: x)
  show ?case
  proof (cases "int_to_float k")
    case (Inl e')
    then have "e' = OverflowError" by (rule int_to_float_Inl)
    with Cons.prems(1) Inl alpha show ?thesis
      by (auto simp: x split: option.splits)
  next
    case (Inr k')
    with Cons.prems(1) alpha obtain t' where "mass_loop items t' = Inl err"
      by (auto simp: x split: option.splits)
    from Cons.IH [OF this rest] show ?thesis .
  qed
qed

lemma composition_init [simp]: "composition (ChemicalCompound_init f n m) = parse_formula f"
  by (simp add: ChemicalCompound_init_def)

lemma molar_mass_init [simp]: "molar_mass (ChemicalCompound_init f n m) = m"
  by (simp add: ChemicalCompound_init_def)

lemma parse_formula_alpha: "\<forall>e \<in> fst ` set (parse_formula f). isalpha e"
  unfolding keys_parse_formula using findall_isalpha by fastforce

lemma sum_atomic_masses_returns:
  assumes "\<forall>e \<in> fst ` set (composition self). isalpha e"
    and "\<forall>(e, k) \<in> set (composition self). int_to_float k = Inr (real_of_int k)"
  shows "\<exists>m. sum_atomic_masses self = Inr (m, self\<lparr>molar_mass := Some m\<rparr>)"
proof -
  from mass_loop_returns [OF assms, of 0] obtain m where "mass_loop (composition self) 0 = Inr m"
    by blast
  then show ?thesis by (simp add: sum_atomic_masses_def)
qed

lemma sum_atomic_masses_Inr:
  "sum_atomic_masses self = Inr (m, self') \<Longrightarrow> self' = self\<lparr>molar_mass := Some m\<rparr>"
  by (auto simp: sum_atomic_masses_def split: sum.splits)

lemma sum_atomic_masses_Inl:
  "sum_atomic_masses self = Inl err \<Longrightarrow> \<forall>e \<in> fst ` set (composition self). isalpha e \<Longrightarrow>
   err = OverflowError"
  using mass_loop_Inl [of "composition self" 0 err]
  by (auto simp: sum_atomic_masses_def split: sum.splits)

lemma calculate_molar_mass_cached:
  "molar_mass self = Some m \<Longrightarrow> calculate_molar_mass self = Inr (m, self)"
  by (simp add: calculate_molar_mass_def)

lemma calculate_molar_mass_returns:
  assumes "\<forall>e \<in> fst ` set (composition self). isalpha e"
    and "\<forall>(e, k) \<in> set (composition self). int_to_float k = Inr (real_of_int k)"
    and "molar_mass self = None"
  shows "\<exists>m. calculate_molar_mass self = Inr (m, self\<lparr>molar_mass := Some m\<rparr>)"
  using sum_atomic_masses_returns [OF assms(1,2)] assms(3)
  by (auto simp: calculate_molar_mass_def Let_def)

lemma calculate_molar_mass_Inr:
  "calculate_molar_mass self = Inr (m, self') \<Longrightarrow> molar_mass self = None \<Longrightarrow>
   self' = self\<lparr>molar_mass := Some m\<rparr>"
  by (auto simp: calculate_molar_mass_def Let_def split: if_splits dest: sum_atomic_masses_Inr)

lemma calculate_molar_mass_Inl:
  "calculate_molar_mass self = Inl err \<Longrightarrow> \<forall>e \<in> fst ` set (composition self). isalpha e \<Longrightarrow>
   err = OverflowError"
  by (auto simp: calculate_molar_mass_def Let_def split: option.splits if_splits
      dest: sum_atomic_masses_Inl)

lemma findall_single_upper: "is_upper c \<Longrightarrow> findall [c] = [([c], [])]"
  by simp

lemma parse_single_upper: "is_upper c \<Longrightarrow> parse_formula [c] = [([c], 1)]"
  by (simp add: parse_formula_def)

section \<open>Claims\<close>

lemma float_limit_le_10_309: "float_limit \<le> 10 ^ 309"
  by (simp add: float_limit_def)




lemma example_defined:
  "list_all (\<lambda>i. step_defined [example_reaction]
       (euler_reference [example_reaction] example_initial [0, 1, 2] i)) [0..<length [0::real, 1, 2] - 1]"
  by (simp add: step_defined_def upt_rec net_coefficient_def rate_formula_def
      get_stoichiometry_matrix_def example_initial_def example_reaction_def
      float_pow_small int_to_float_small)




text \<open>
  Claim C3. The keys of \<open>get_stoichiometry_matrix\<close> are exactly the reactants and the
  products; a compound that is only a reactant has minus its coefficient, a compound that
  is only a product has its coefficient, and for a compound on both sides the entry of
  the product overwrites the entry of the reactant. The hypotheses say that the two
  association lists are dictionaries.
\<close>

theorem stoichiometry_matrix_entries:
  assumes "distinct (map fst (reactants r))" and "distinct (map fst (products r))"
  shows "fst ` set (get_stoichiometry_matrix r) = fst ` set (reactants r) \<union> fst ` set (products r) \<and>
         distinct (map fst (get_stoichiometry_matrix r)) \<and>
         map_of (get_stoichiometry_matrix r) c =
           (case map_of (products r) c of
              Some k \<Rightarrow> Some k
            | None \<Rightarrow> (case map_of (reactants r) c of Some k \<Rightarrow> Some (- k) | None \<Rightarrow> None))"
  using stoich_keys [of r] stoich_distinct [of r] stoich_map_of [OF assms, of c] by simp

theorem stoichiometry_matrix_entries_witness:
  "distinct (map fst [(0::nat, 2::int), (1, 1)]) \<and> distinct (map fst [(0::nat, 3::int), (2, 1)]) \<and>
   fst ` set (get_stoichiometry_matrix
      \<lparr>reactants = [(0::nat, 2), (1, 1)], products = [(0, 3), (2, 1)], rate_constant = 1, reaction_order = 1\<rparr>)
     = {0, 1, 2} \<and>
   map_of (get_stoichiometry_matrix
      \<lparr>reactants = [(0::nat, 2), (1, 1)], products = [(0, 3), (2, 1)], rate_constant = 1, reaction_order = 1\<rparr>) 0
     = Some 3 \<and>
   map_of (get_stoichiometry_matrix
      \<lparr>reactants = [(0::nat, 2), (1, 1)], products = [(0, 3), (2, 1)], rate_constant = 1, reaction_order = 1\<rparr>) 1
     = Some (- 1)"
  using stoichiometry_matrix_entries [of
      "\<lparr>reactants = [(0::nat, 2), (1, 1)], products = [(0, 3), (2, 1)], rate_constant = 1, reaction_order = 1\<rparr>" 0]
    stoichiometry_matrix_entries [of
      "\<lparr>reactants = [(0::nat, 2), (1, 1)], products = [(0, 3), (2, 1)], rate_constant = 1, reaction_order = 1\<rparr>" 1]
  by auto

text \<open>
  Claim C4. Whenever \<open>simulate\<close> returns and the list of time points is not empty (the
  specification gives it at least two), the trajectory of every compound of the result
  has one entry for each time point, and its first entry is
  \<open>initial_concentrations.get(c, 0.0)\<close>.
\<close>

theorem simulate_length_and_first:
  assumes "simulate (ReactionSystem_init rs) initial_concentrations time_points = Inr res"
    and "res c = Some trajectory"
    and "time_points \<noteq> []"
  shows "length trajectory = length time_points \<and>
         trajectory ! 0 = (case initial_concentrations c of Some v \<Rightarrow> v | None \<Rightarrow> 0)"
proof -
  from assms(3) have len: "max 1 (length time_points) = length time_points"
    by (cases time_points) auto
  from simulate_reference [OF assms(1), of c] assms(2) have
    "trajectory = map (\<lambda>i. euler_reference rs initial_concentrations time_points i c)
                    [0..<length time_points]"
    unfolding len by (simp split: if_splits)
  moreover have "0 < length time_points" using assms(3) by simp
  ultimately show ?thesis by simp
qed

theorem simulate_length_and_first_witness:
  "\<exists>res trajectory.
     simulate (ReactionSystem_init [example_reaction]) example_initial [0, 1, 2] = Inr res \<and>
     res 2 = Some trajectory \<and> [0::real, 1, 2] \<noteq> [] \<and>
     length trajectory = 3 \<and> trajectory ! 0 = 0"
proof -
  from simulate_returns [OF example_defined] obtain res where
    res: "simulate (ReactionSystem_init [example_reaction]) example_initial [0, 1, 2] = Inr res"
    by blast
  from simulate_reference [OF res, of 2] obtain trajectory where
    traj: "res 2 = Some trajectory"
    by (simp add: set_all_compounds_init example_reaction_def)
  have ne: "[0::real, 1, 2] \<noteq> []" by simp
  from simulate_length_and_first [OF res traj ne] res traj show ?thesis
    by (auto simp: example_initial_def)
qed

lemma euler_reference_nonneg:
  "0 < i \<or> 0 \<le> (case initial_concentrations c of Some v \<Rightarrow> v | None \<Rightarrow> 0) \<Longrightarrow>
   0 \<le> euler_reference rs initial_concentrations time_points i c"
  by (cases i) simp_all

text \<open>
  Claim C5. Whenever \<open>simulate\<close> returns, every entry of a trajectory after the first is
  at least \<open>0.0\<close>, being a maximum with \<open>0.0\<close>; the first entry is the initial
  concentration of the compound, which the specification takes to be non-negative, and
  then it is at least \<open>0.0\<close> too.
\<close>

theorem simulate_nonnegative:
  assumes "simulate (ReactionSystem_init rs) initial_concentrations time_points = Inr res"
    and "res c = Some trajectory"
    and "i < length trajectory"
    and "0 < i \<or> 0 \<le> (case initial_concentrations c of Some v \<Rightarrow> v | None \<Rightarrow> 0)"
  shows "0 \<le> trajectory ! i"
proof -
  let ?n = "max 1 (length time_points)"
  from simulate_reference [OF assms(1), of c] assms(2) have
    traj: "trajectory = map (\<lambda>i. euler_reference rs initial_concentrations time_points i c) [0..<?n]"
    by (simp split: if_splits)
  then have "length trajectory = ?n" by simp
  with assms(3) have "i < ?n" by simp
  then have "map (\<lambda>i. euler_reference rs initial_concentrations time_points i c) [0..<?n] ! i
      = euler_reference rs initial_concentrations time_points i c"
    by simp
  then have "trajectory ! i = euler_reference rs initial_concentrations time_points i c"
    by (simp only: traj)
  moreover have "0 \<le> euler_reference rs initial_concentrations time_points i c"
    using assms(4) by (rule euler_reference_nonneg)
  ultimately show ?thesis by (simp only:)
qed

theorem simulate_nonnegative_witness:
  "\<exists>res trajectory.
     simulate (ReactionSystem_init [example_reaction]) example_initial [0, 1, 2] = Inr res \<and>
     res 0 = Some trajectory \<and> 2 < length trajectory \<and>
     0 \<le> (case example_initial 0 of Some v \<Rightarrow> v | None \<Rightarrow> 0) \<and>
     0 \<le> trajectory ! 0 \<and> 0 \<le> trajectory ! 2"
proof -
  from simulate_returns [OF example_defined] obtain res where
    res: "simulate (ReactionSystem_init [example_reaction]) example_initial [0, 1, 2] = Inr res"
    by blast
  have "0 \<in> set (all_compounds (ReactionSystem_init [example_reaction]))"
    by (simp add: set_all_compounds_init example_reaction_def)
  with simulate_reference [OF res, of 0] have
    "res 0 = Some (map (\<lambda>i. euler_reference [example_reaction] example_initial [0, 1, 2] i 0)
                    [0..<max 1 (length [0::real, 1, 2])])"
    by (simp only: if_True)
  then obtain trajectory where
    traj: "res 0 = Some trajectory" and len: "length trajectory = 3"
    by simp
  have init: "0 \<le> (case example_initial 0 of Some v \<Rightarrow> v | None \<Rightarrow> 0)"
    by (simp add: example_initial_def)
  have i0: "0 < length trajectory" and i2: "2 < length trajectory" using len by simp_all
  have "0 \<le> trajectory ! 0" using res traj i0 init by (rule simulate_nonnegative [OF _ _ _ disjI2])
  moreover have "0 \<le> trajectory ! 2" using res traj i2 by (rule simulate_nonnegative) simp
  ultimately show ?thesis using res traj init i2 by (intro exI conjI)
qed

lemma initial_trajectories_restrict:
  "initial_trajectories comps (init |` set comps) = initial_trajectories comps init"
  by (rule ext) (simp add: initial_trajectories_apply)

text \<open>
  Claim C10. The keys of the mapping that \<open>simulate\<close> returns are exactly the compounds
  that are a reactant or a product of some reaction of the system; an entry of
  \<open>initial_concentrations\<close> for any other compound is ignored: without those entries
  the result is the same, and no such compound is a key of it.
\<close>

theorem simulate_keys:
  assumes "simulate (ReactionSystem_init rs) initial_concentrations time_points = Inr res"
  shows "dom res = (\<Union>r \<in> set rs. fst ` set (reactants r) \<union> fst ` set (products r)) \<and>
         simulate (ReactionSystem_init rs)
           (initial_concentrations |` (\<Union>r \<in> set rs. fst ` set (reactants r) \<union> fst ` set (products r)))
           time_points = Inr res"
proof -
  have "dom res = set (all_compounds (ReactionSystem_init rs))"
  proof (rule set_eqI)
    fix c
    show "c \<in> dom res \<longleftrightarrow> c \<in> set (all_compounds (ReactionSystem_init rs))"
      using simulate_reference [OF assms, of c] by (simp add: domIff)
  qed
  moreover have "simulate (ReactionSystem_init rs)
      (initial_concentrations |` set (all_compounds (ReactionSystem_init rs))) time_points = Inr res"
    using assms by (simp add: simulate_def initial_trajectories_restrict)
  ultimately show ?thesis by (simp add: set_all_compounds_init)
qed

theorem simulate_keys_witness:
  "\<exists>res. simulate (ReactionSystem_init [example_reaction]) (example_initial(7 \<mapsto> 3)) [0, 1, 2] = Inr res \<and>
     dom res = {0, 1, 2} \<and> res 7 = None"
proof -
  have "list_all (\<lambda>i. step_defined [example_reaction]
       (euler_reference [example_reaction] (example_initial(7 \<mapsto> 3)) [0, 1, 2] i))
       [0..<length [0::real, 1, 2] - 1]"
    by (simp add: step_defined_def upt_rec net_coefficient_def rate_formula_def
        get_stoichiometry_matrix_def example_initial_def example_reaction_def
        float_pow_small int_to_float_small)
  from simulate_returns [OF this] obtain res where
    res: "simulate (ReactionSystem_init [example_reaction]) (example_initial(7 \<mapsto> 3)) [0, 1, 2] = Inr res"
    by blast
  have "(\<Union>r \<in> set [example_reaction]. fst ` set (reactants r) \<union> fst ` set (products r))
      = {0, 1, 2}"
    by (simp add: example_reaction_def insert_commute)
  with simulate_keys [OF res] have d: "dom res = {0, 1, 2}" by (simp only:)
  then have "7 \<notin> dom res" by simp
  then have "res 7 = None" by (simp only: domIff not_not)
  with res d show ?thesis by (intro exI conjI)
qed

lemma simulate_no_reactions:
  "simulate (ReactionSystem_init []) initial_concentrations time_points = Inr Map.empty"
proof -
  have ac: "all_compounds (ReactionSystem_init ([] :: 'a Reaction list)) = []"
    by (simp add: ReactionSystem_init_def)
  have step: "euler_step (ReactionSystem_init ([] :: 'a Reaction list)) dt Map.empty = Inr Map.empty" for dt
    by (simp add: euler_step_def ac ReactionSystem_init_def)
  have "euler_loop (ReactionSystem_init ([] :: 'a Reaction list)) time_points is Map.empty = Inr Map.empty" for "is"
    by (induction "is") (simp_all add: step)
  then show ?thesis by (simp add: simulate_def ac initial_trajectories_def)
qed

text \<open>
  Claim C6, as the code has it. With no reaction defined,
  \<open>ChemicalCalculator.simulate_reactions\<close> fails with its ValueError before it asks for
  any time point (whatever \<open>linspace\<close> would do) and returns no trajectory. The check is
  there and not in \<open>ReactionSystem.simulate\<close>: called on the same empty list of
  reactions, that returns the empty mapping.
\<close>

theorem simulate_reactions_rejects_no_reactions:
  assumes "calculator_reactions self = []"
  shows "simulate_reactions linspace self time_end time_steps =
           Inl (ValueError ''No reactions defined. Add reactions before simulating.'') \<and>
         simulate (ReactionSystem_init (calculator_reactions self)) initial_concentrations time_points =
           Inr Map.empty"
  using assms by (simp add: simulate_reactions_def simulate_no_reactions)

theorem simulate_reactions_rejects_no_reactions_witness:
  "calculator_reactions \<lparr>compounds = [(''A'', (0::nat, 1))], calculator_reactions = []\<rparr> = [] \<and>
   simulate_reactions (\<lambda>start stop num. Inr [0, 1])
     \<lparr>compounds = [(''A'', (0::nat, 1))], calculator_reactions = []\<rparr> 1 2 =
     Inl (ValueError ''No reactions defined. Add reactions before simulating.'')"
  using simulate_reactions_rejects_no_reactions
    [of "\<lparr>compounds = [(''A'', (0::nat, 1))], calculator_reactions = []\<rparr>" "\<lambda>start stop num. Inr [0, 1]" 1 2]
  by simp

text \<open>
  Claim C6, as stated, asks \<open>simulate\<close> to fail on a system without reactions; it
  returns.
\<close>

theorem simulate_no_reactions_returns:
  "simulate (ReactionSystem_init ([] :: nat Reaction list)) (map_of [(0, 1)]) [0, 1] = Inr (map_of [])"
  by (simp add: simulate_no_reactions)

text \<open>
  Claim C8. For a compound whose formula is one uppercase letter that the table of
  atomic masses does not have (such as \<open>A\<close>), constructed without a molar mass,
  \<open>calculate_molar_mass\<close> returns exactly \<open>100.0\<close> and stores it; it does not fail.
\<close>

theorem molar_mass_unknown_letter:
  assumes "is_upper c" and "map_of atomic_masses [c] = None"
  shows "calculate_molar_mass (ChemicalCompound_init [c] n None) =
           Inr (100, (ChemicalCompound_init [c] n None)\<lparr>molar_mass := Some 100\<rparr>)"
proof -
  from assms(1) have "isalpha [c]" by (simp add: isalpha_def)
  with assms show ?thesis
    by (simp add: calculate_molar_mass_def parse_single_upper Let_def)
qed

theorem molar_mass_unknown_letter_witness:
  "is_upper CHR ''A'' \<and> map_of atomic_masses ''A'' = None \<and>
   calculate_molar_mass (ChemicalCompound_init ''A'' None None) =
     Inr (100, \<lparr>formula = ''A'', name = ''A'', molar_mass = Some 100, composition = [(''A'', 1)]\<rparr>)"
proof -
  have h1: "is_upper CHR ''A''" by (simp add: is_upper_def)
  have h2: "map_of atomic_masses ''A'' = None" by (simp add: atomic_masses_def)
  from molar_mass_unknown_letter [OF h1 h2, of None] h1 h2 show ?thesis
    by (simp add: ChemicalCompound_init_def parse_single_upper)
qed

lemma digit_not_lower: "is_digit d \<Longrightarrow> \<not> is_lower d"
  by (simp add: is_digit_def is_lower_def)

lemma findall_upper_digits:
  assumes "is_upper c" and "ds \<noteq> []" and "\<forall>d \<in> set ds. is_digit d"
  shows "findall (c # ds) = [([c], ds)]"
proof -
  from assms(2) obtain d ds' where ds: "ds = d # ds'" by (cases ds) auto
  with assms(3) have "\<not> is_lower d" by (simp add: digit_not_lower)
  moreover from assms(3) have "takeWhile is_digit ds = ds" "dropWhile is_digit ds = []"
    by simp_all
  ultimately show ?thesis using assms(1) by (simp add: ds)
qed

lemma foldl_zero_digits:
  "foldl (\<lambda>n d. 10 * n + int (of_char d - 48)) a (replicate n CHR ''0'') = a * 10 ^ n"
  by (induction n arbitrary: a) simp_all

lemma int_of_one_zeros: "int_of_digits (CHR ''1'' # replicate n CHR ''0'') = 10 ^ n"
  by (simp add: int_of_digits_def foldl_zero_digits)

lemma parse_one_zeros:
  "is_upper c \<Longrightarrow> parse_formula (c # CHR ''1'' # replicate n CHR ''0'') = [([c], 10 ^ n)]"
proof -
  assume c: "is_upper c"
  have "\<forall>d \<in> set (CHR ''1'' # replicate n CHR ''0''). is_digit d"
    by (auto simp: is_digit_def)
  with c have "findall (c # CHR ''1'' # replicate n CHR ''0'') = [([c], CHR ''1'' # replicate n CHR ''0'')]"
    by (intro findall_upper_digits) simp_all
  then show ?thesis by (simp add: parse_formula_def int_of_one_zeros)
qed

lemma int_to_float_large: "309 \<le> n \<Longrightarrow> int_to_float (10 ^ n) = Inl OverflowError"
proof -
  assume "309 \<le> n"
  then have "(10::real) ^ 309 \<le> 10 ^ n" by (intro power_increasing) simp_all
  with float_limit_le_10_309 have "float_limit \<le> 10 ^ n" by simp
  then show ?thesis by (simp add: int_to_float_def)
qed

lemma molar_mass_overflow:
  assumes "is_upper c" and "map_of atomic_masses [c] = Some w" and "309 \<le> n"
  shows "calculate_molar_mass (ChemicalCompound_init (c # CHR ''1'' # replicate n CHR ''0'') nm None)
         = Inl OverflowError"
  using assms
  by (simp add: calculate_molar_mass_def sum_atomic_masses_def parse_one_zeros int_to_float_large)

text \<open>
  Claim C7, as the code has it. A molar mass given to the constructor is returned as it
  is and the object is unchanged. Without one, whenever the first call returns a mass,
  the mass is stored in the object (the composition is not touched) and a second call on
  that object returns the same mass and leaves the object as it is; and the first call
  returns whenever every count of the composition converts to a float.
\<close>

theorem molar_mass_idempotent:
  "calculate_molar_mass (ChemicalCompound_init f n (Some v)) =
     Inr (v, ChemicalCompound_init f n (Some v)) \<and>
   (calculate_molar_mass (ChemicalCompound_init f n None) = Inr (m, self') \<longrightarrow>
      self' = (ChemicalCompound_init f n None)\<lparr>molar_mass := Some m\<rparr> \<and>
      calculate_molar_mass self' = Inr (m, self')) \<and>
   (list_all (\<lambda>(e, k). int_to_float k = Inr (real_of_int k))
      (composition (ChemicalCompound_init f n None)) \<longrightarrow>
    (\<exists>m self'. calculate_molar_mass (ChemicalCompound_init f n None) = Inr (m, self')))"
proof (intro conjI impI)
  show "calculate_molar_mass (ChemicalCompound_init f n (Some v)) =
     Inr (v, ChemicalCompound_init f n (Some v))"
    by (rule calculate_molar_mass_cached) simp
next
  assume ret: "calculate_molar_mass (ChemicalCompound_init f n None) = Inr (m, self')"
  then show self': "self' = (ChemicalCompound_init f n None)\<lparr>molar_mass := Some m\<rparr>"
    by (rule calculate_molar_mass_Inr) simp
  then show "calculate_molar_mass self' = Inr (m, self')"
    by (intro calculate_molar_mass_cached) simp
next
  assume "list_all (\<lambda>(e, k). int_to_float k = Inr (real_of_int k))
      (composition (ChemicalCompound_init f n None))"
  then have "\<forall>(e, k) \<in> set (composition (ChemicalCompound_init f n None)).
      int_to_float k = Inr (real_of_int k)"
    by (simp add: list_all_iff)
  moreover have "\<forall>e \<in> fst ` set (composition (ChemicalCompound_init f n None)). isalpha e"
    using parse_formula_alpha [of f] by simp
  ultimately show "\<exists>m self'. calculate_molar_mass (ChemicalCompound_init f n None) = Inr (m, self')"
    using calculate_molar_mass_returns [of "ChemicalCompound_init f n None"] by auto
qed

theorem molar_mass_idempotent_witness:
  "calculate_molar_mass (ChemicalCompound_init ''NaCl'' None None) =
     Inr (58.44, (ChemicalCompound_init ''NaCl'' None None)\<lparr>molar_mass := Some 58.44\<rparr>) \<and>
   calculate_molar_mass ((ChemicalCompound_init ''NaCl'' None None)\<lparr>molar_mass := Some 58.44\<rparr>) =
     Inr (58.44, (ChemicalCompound_init ''NaCl'' None None)\<lparr>molar_mass := Some 58.44\<rparr>)"
proof -
  have first: "calculate_molar_mass (ChemicalCompound_init ''NaCl'' None None) =
     Inr (58.44, (ChemicalCompound_init ''NaCl'' None None)\<lparr>molar_mass := Some 58.44\<rparr>)"
    by (simp add: calculate_molar_mass_def sum_atomic_masses_def ChemicalCompound_init_def
        parse_formula_def is_upper_def is_lower_def is_digit_def atomic_masses_def
        int_to_float_small)
  with molar_mass_idempotent [of "''NaCl''" None 0 "58.44"
      "(ChemicalCompound_init ''NaCl'' None None)\<lparr>molar_mass := Some 58.44\<rparr>"]
  show ?thesis by blast
qed

text \<open>
  Claim C7, as stated, has the first call return a mass for every formula of the token
  grammar. With a count that is too large for a float the call raises OverflowError and
  returns no mass.
\<close>

theorem molar_mass_first_call_raises:
  "calculate_molar_mass
     (ChemicalCompound_init (CHR ''O'' # CHR ''1'' # replicate 400 CHR ''0'') None None)
   = Inl OverflowError"
  by (rule molar_mass_overflow [where w = "16.00"]) (simp_all add: is_upper_def atomic_masses_def)

text \<open>
  Claim C9, as the code has it. For every compound that the constructor builds, every key
  of the composition is one uppercase letter, or one uppercase letter and one lowercase
  letter, so the branch that raises ValueError is never taken: the only exception of
  \<open>calculate_molar_mass\<close> is OverflowError, and it returns whenever every count of the
  composition converts to a float.
\<close>

theorem molar_mass_raises_only_overflow:
  "(\<forall>e \<in> fst ` set (composition (ChemicalCompound_init f n m)).
      \<exists>u. is_upper u \<and> (e = [u] \<or> (\<exists>l. is_lower l \<and> e = [u, l]))) \<and>
   (calculate_molar_mass (ChemicalCompound_init f n m) = Inl err \<longrightarrow> err = OverflowError) \<and>
   (list_all (\<lambda>(e, k). int_to_float k = Inr (real_of_int k))
      (composition (ChemicalCompound_init f n m)) \<longrightarrow>
    (\<exists>v self'. calculate_molar_mass (ChemicalCompound_init f n m) = Inr (v, self')))"
proof (intro conjI impI)
  show "\<forall>e \<in> fst ` set (composition (ChemicalCompound_init f n m)).
      \<exists>u. is_upper u \<and> (e = [u] \<or> (\<exists>l. is_lower l \<and> e = [u, l]))"
  proof
    fix e assume "e \<in> fst ` set (composition (ChemicalCompound_init f n m))"
    then have "e \<in> fst ` set (findall f)" by (simp add: keys_parse_formula)
    then obtain d where "(e, d) \<in> set (findall f)" by auto
    then show "\<exists>u. is_upper u \<and> (e = [u] \<or> (\<exists>l. is_lower l \<and> e = [u, l]))"
      by (rule findall_shape)
  qed
next
  assume "calculate_molar_mass (ChemicalCompound_init f n m) = Inl err"
  moreover have "\<forall>e \<in> fst ` set (composition (ChemicalCompound_init f n m)). isalpha e"
    using parse_formula_alpha [of f] by simp
  ultimately show "err = OverflowError" by (rule calculate_molar_mass_Inl)
next
  have alpha: "\<forall>e \<in> fst ` set (composition (ChemicalCompound_init f n m)). isalpha e"
    using parse_formula_alpha [of f] by simp
  assume "list_all (\<lambda>(e, k). int_to_float k = Inr (real_of_int k))
      (composition (ChemicalCompound_init f n m))"
  then have conv: "\<forall>(e, k) \<in> set (composition (ChemicalCompound_init f n m)).
      int_to_float k = Inr (real_of_int k)"
    by (simp add: list_all_iff)
  show "\<exists>v self'. calculate_molar_mass (ChemicalCompound_init f n m) = Inr (v, self')"
  proof (cases m)
    case (Some v)
    then have "calculate_molar_mass (ChemicalCompound_init f n m) = Inr (v, ChemicalCompound_init f n m)"
      by (intro calculate_molar_mass_cached) simp
    then show ?thesis by blast
  next
    case None
    then have "molar_mass (ChemicalCompound_init f n m) = None" by simp
    with alpha conv show ?thesis
      using calculate_molar_mass_returns [of "ChemicalCompound_init f n m"] by blast
  qed
qed

theorem molar_mass_raises_only_overflow_witness:
  "composition (ChemicalCompound_init ''C6H12O6 x?'' None None) = [(''C'', 6), (''H'', 12), (''O'', 6)] \<and>
   (\<exists>v self'. calculate_molar_mass (ChemicalCompound_init ''C6H12O6 x?'' None None) = Inr (v, self'))"
proof -
  have c: "composition (ChemicalCompound_init ''C6H12O6 x?'' None None) = [(''C'', 6), (''H'', 12), (''O'', 6)]"
    by (simp add: parse_formula_def is_upper_def is_lower_def is_digit_def int_of_digits_def)
  have "list_all (\<lambda>(e, k). int_to_float k = Inr (real_of_int k))
      (composition (ChemicalCompound_init ''C6H12O6 x?'' None None))"
    unfolding c by (simp add: int_to_float_small)
  with molar_mass_raises_only_overflow [of "''C6H12O6 x?''" None None] c show ?thesis by blast
qed

text \<open>
  Claim C9, as stated, has \<open>calculate_molar_mass\<close> never raise. The constructor builds
  the compound of the formula \<open>H1\<close> followed by 309 zeros, and the product of the mass of
  hydrogen and that count raises OverflowError.
\<close>

theorem molar_mass_raises_overflow:
  "calculate_molar_mass
     (ChemicalCompound_init (CHR ''H'' # CHR ''1'' # replicate 309 CHR ''0'') None None)
   = Inl OverflowError"
  by (rule molar_mass_overflow [where w = "1.008"]) (simp_all add: is_upper_def atomic_masses_def)

end
